theory Spec2Isabelle
  imports Complex_Main
begin

section \<open>Premiere Pro marker importer: the second (final) script of hockey_markers.jsx\<close>

text \<open>
  The script reads a two-column CSV file and places one marker per row on the host's
  active sequence. The functions below follow \<^verbatim>\<open>trim\<close>, \<^verbatim>\<open>readCSV\<close>,
  \<^verbatim>\<open>parseCSVData\<close>, \<^verbatim>\<open>parseTimeString\<close>, \<^verbatim>\<open>insertMarkers\<close>,
  \<^verbatim>\<open>selectCSVFile\<close> and \<^verbatim>\<open>main\<close> of the second script in the file.

  Conventions of the model:
  \<^item> a JavaScript string is a \<open>string\<close> (a list of 8-bit characters), so only characters
    below U+0100 occur;
  \<^item> a JavaScript Number is a \<open>jsnum\<close>: \<open>NaN\<close>, the two infinities, or a finite number
    carried as its exact rational value. The rounding of a Number to an IEEE double
    (overflow to an infinity included) and the sign of zero are not represented; whether
    a Number is NaN depends on neither;
  \<^item> a thrown \<^verbatim>\<open>Error\<close> is a value of the type \<open>error\<close>, one constructor per
    \<^verbatim>\<open>throw\<close> of the script, returned as \<open>Inl\<close>;
  \<^item> \<^verbatim>\<open>log\<close> only writes a line to the host console; it returns nothing and takes no
    part in any decision, so its calls are left out (and with them the variable
    \<^verbatim>\<open>lineNumber\<close> of \<^verbatim>\<open>readCSV\<close>, which only feeds a log line).
\<close>

subsection \<open>Strings: \<^verbatim>\<open>trim\<close>, \<^verbatim>\<open>split\<close> and the quote pattern\<close>

text \<open>The class \<^verbatim>\<open>\s\<close> of a regular expression, below U+0100: TAB, LF, VT, FF, CR,
  SPACE and NBSP. \<^verbatim>\<open>parseFloat\<close> and \<^verbatim>\<open>parseInt\<close> skip the same characters.\<close>

definition is_space :: "char \<Rightarrow> bool" where
  "is_space c \<longleftrightarrow>
     c = CHR 0x09 \<or> c = CHR 0x0A \<or> c = CHR 0x0B \<or> c = CHR 0x0C \<or> c = CHR 0x0D \<or>
     c = CHR 0x20 \<or> c = CHR 0xA0"

text \<open>\<^verbatim>\<open>str.replace(/^\s+|\s+$/g, '')\<close>: the leading run of white space goes, then the
  trailing one.\<close>

definition trim :: "string \<Rightarrow> string" where
  "trim str = rev (dropWhile is_space (rev (dropWhile is_space str)))"

text \<open>\<^verbatim>\<open>s.split(d)\<close> for a separator of one character: the pieces between the
  separators, empty pieces kept; the empty string gives one empty piece.\<close>

fun split_on :: "char \<Rightarrow> string \<Rightarrow> string list" where
  "split_on d [] = [[]]"
| "split_on d (c # cs) =
     (if c = d then [] # split_on d cs
      else (case split_on d cs of
              [] \<Rightarrow> [[c]]
            | p # ps \<Rightarrow> (c # p) # ps))"

definition is_quote :: "char \<Rightarrow> bool" where
  "is_quote c \<longleftrightarrow> c = CHR 0x22 \<or> c = CHR 0x27"

text \<open>\<^verbatim>\<open>col.replace(/^["']|["']$/g, '')\<close>: a quote character at the very start is
  removed, and a quote character at the very end of what remains is removed. The two
  alternatives are independent: the two characters need not be the same, and either may be
  there without the other.\<close>

definition strip_quotes :: "string \<Rightarrow> string" where
  "strip_quotes col =
     (let rest = (case col of [] \<Rightarrow> [] | c # cs \<Rightarrow> if is_quote c then cs else col)
      in if rest \<noteq> [] \<and> is_quote (last rest) then butlast rest else rest)"

subsection \<open>Numbers: \<^verbatim>\<open>parseFloat\<close>, \<^verbatim>\<open>parseInt\<close> and arithmetic\<close>

datatype jsnum = NaN | PInf | NInf | Num rat

definition isNaN :: "jsnum \<Rightarrow> bool" where
  "isNaN x \<longleftrightarrow> x = NaN"

fun js_neg :: "jsnum \<Rightarrow> jsnum" where
  "js_neg NaN = NaN"
| "js_neg PInf = NInf"
| "js_neg NInf = PInf"
| "js_neg (Num a) = Num (- a)"

fun js_add :: "jsnum \<Rightarrow> jsnum \<Rightarrow> jsnum" where
  "js_add NaN y = NaN"
| "js_add x NaN = NaN"
| "js_add PInf NInf = NaN"
| "js_add NInf PInf = NaN"
| "js_add PInf y = PInf"
| "js_add NInf y = NInf"
| "js_add (Num a) PInf = PInf"
| "js_add (Num a) NInf = NInf"
| "js_add (Num a) (Num b) = Num (a + b)"

fun js_mul :: "jsnum \<Rightarrow> jsnum \<Rightarrow> jsnum" where
  "js_mul NaN y = NaN"
| "js_mul x NaN = NaN"
| "js_mul (Num a) (Num b) = Num (a * b)"
| "js_mul (Num a) PInf = (if a = 0 then NaN else if 0 < a then PInf else NInf)"
| "js_mul (Num a) NInf = (if a = 0 then NaN else if 0 < a then NInf else PInf)"
| "js_mul PInf (Num b) = (if b = 0 then NaN else if 0 < b then PInf else NInf)"
| "js_mul NInf (Num b) = (if b = 0 then NaN else if 0 < b then NInf else PInf)"
| "js_mul PInf PInf = PInf"
| "js_mul PInf NInf = NInf"
| "js_mul NInf PInf = NInf"
| "js_mul NInf NInf = PInf"

definition is_digit :: "char \<Rightarrow> bool" where
  "is_digit c \<longleftrightarrow> c \<in> set ''0123456789''"

definition digit_val :: "char \<Rightarrow> nat" where
  "digit_val c = of_char c - 48"

text \<open>The value of a run of decimal digits, most significant first.\<close>

definition digits_val :: "string \<Rightarrow> nat" where
  "digits_val ds = foldl (\<lambda>n c. 10 * n + digit_val c) 0 ds"

text \<open>An optional sign: whether it was \<^verbatim>\<open>-\<close>, and the rest.\<close>

fun read_sign :: "string \<Rightarrow> bool \<times> string" where
  "read_sign [] = (False, [])"
| "read_sign (c # cs) =
     (if c = CHR ''-'' then (True, cs)
      else if c = CHR ''+'' then (False, cs)
      else (False, c # cs))"

text \<open>The value of the ExponentPart the string begins with (\<^verbatim>\<open>e\<close> or \<^verbatim>\<open>E\<close>, an
  optional sign, at least one digit), and 0 when it begins with none.\<close>

fun exponent_part :: "string \<Rightarrow> int" where
  "exponent_part [] = 0"
| "exponent_part (c # cs) =
     (if c = CHR ''e'' \<or> c = CHR ''E''
      then (case read_sign cs of
              (neg, r) \<Rightarrow>
                (let z = takeWhile is_digit r
                 in if z = [] then 0
                    else if neg then - int (digits_val z) else int (digits_val z)))
      else 0)"

definition scale10 :: "rat \<Rightarrow> int \<Rightarrow> rat" where
  "scale10 m e = (if 0 \<le> e then m * 10 ^ nat e else m / 10 ^ nat (- e))"

text \<open>What follows the integer digits \<open>ip\<close> of a literal: an optional fraction (a point
  and digits) and an optional exponent. A literal needs a digit before or after the point.\<close>

definition after_digits :: "string \<Rightarrow> string \<Rightarrow> jsnum" where
  "after_digits ip r =
     (let fp = (case r of [] \<Rightarrow> []
                | c # cs \<Rightarrow> if c = CHR ''.'' then takeWhile is_digit cs else []);
          r2 = (case r of [] \<Rightarrow> []
                | c # cs \<Rightarrow> if c = CHR ''.'' then dropWhile is_digit cs else r)
      in if ip = [] \<and> fp = [] then NaN
         else Num (scale10 (of_nat (digits_val ip) + of_nat (digits_val fp) / 10 ^ length fp)
                     (exponent_part r2)))"

text \<open>The longest prefix that is a StrUnsignedDecimalLiteral of ECMAScript
  (\<^verbatim>\<open>Infinity\<close>, digits with an optional fraction, or a fraction that starts with the
  point, each with an optional exponent) and its value; \<open>NaN\<close> when no prefix is one.\<close>

definition str_unsigned :: "string \<Rightarrow> jsnum" where
  "str_unsigned u =
     (if take 8 u = ''Infinity'' then PInf
      else after_digits (takeWhile is_digit u) (dropWhile is_digit u))"

text \<open>\<^verbatim>\<open>parseFloat(s)\<close>: leading white space is skipped, then the longest prefix that
  is a StrDecimalLiteral is read and whatever follows it is ignored.\<close>

definition parseFloat :: "string \<Rightarrow> jsnum" where
  "parseFloat s =
     (case read_sign (dropWhile is_space s) of
        (neg, u) \<Rightarrow> if neg then js_neg (str_unsigned u) else str_unsigned u)"

text \<open>\<^verbatim>\<open>parseInt(s, 10)\<close>: leading white space is skipped, then an optional sign and
  the longest run of decimal digits are read; \<open>NaN\<close> when the run is empty.\<close>

definition parseInt10 :: "string \<Rightarrow> jsnum" where
  "parseInt10 s =
     (case read_sign (dropWhile is_space s) of
        (neg, u) \<Rightarrow>
          (let z = takeWhile is_digit u
           in if z = [] then NaN
              else if neg then Num (- of_nat (digits_val z)) else Num (of_nat (digits_val z))))"

subsection \<open>Errors\<close>

datatype error =
    NoFileSelected            \<comment> \<open>"No file selected."\<close>
  | FileNotFound string       \<comment> \<open>"File does not exist: " + filePath\<close>
  | HeaderInvalid             \<comment> \<open>"CSV header must contain at least two columns: ..."\<close>
  | EmptyData                 \<comment> \<open>"CSV file is empty or contains no valid data."\<close>
  | NoValidMarkers            \<comment> \<open>"No valid markers found in the CSV file"\<close>
  | InvalidTimeFormat string  \<comment> \<open>"Invalid time format: " + timeStr + ...\<close>
  | NoActiveSequence          \<comment> \<open>"No active sequence found."\<close>

subsection \<open>\<^verbatim>\<open>parseTimeString\<close>\<close>

definition parseTimeString :: "string \<Rightarrow> error + jsnum" where
  "parseTimeString timeStr0 =
     (let timeStr = trim timeStr0;
          seconds = parseFloat timeStr
      in if \<not> isNaN seconds then Inr seconds
         else
           (case split_on CHR '':'' timeStr of
              [p0, p1, p2] \<Rightarrow>
                (let hours = parseInt10 p0;
                     minutes = parseInt10 p1;
                     secs = parseFloat p2
                 in if \<not> isNaN hours \<and> \<not> isNaN minutes \<and> \<not> isNaN secs
                    then Inr (js_add (js_add (js_mul hours (Num 3600)) (js_mul minutes (Num 60)))
                                secs)
                    else Inl (InvalidTimeFormat timeStr))
            | _ \<Rightarrow> Inl (InvalidTimeFormat timeStr)))"

subsection \<open>\<^verbatim>\<open>readCSV\<close>\<close>

text \<open>The host's \<^verbatim>\<open>File\<close> object is outside the script. A file system is a map from a
  path to the text of the file there (\<open>None\<close>: \<^verbatim>\<open>file.exists\<close> is false), and
  \<^verbatim>\<open>readln\<close> under \<^verbatim>\<open>while (!file.eof)\<close> hands out the pieces of the text between
  line feeds; a text that ends with a line feed has no further line after it.\<close>

type_synonym filesystem = "string \<Rightarrow> string option"

definition file_lines :: "string \<Rightarrow> string list" where
  "file_lines text =
     (let ps = split_on CHR 0x0A text
      in if last ps = [] then butlast ps else ps)"

text \<open>The callback of \<^verbatim>\<open>line.split(',').map(...)\<close>:
  \<^verbatim>\<open>trim(col.replace(/^["']|["']$/g, ''))\<close>.\<close>

definition clean_column :: "string \<Rightarrow> string" where
  "clean_column col = trim (strip_quotes col)"

text \<open>The \<^verbatim>\<open>while\<close> loop of \<^verbatim>\<open>readCSV\<close> over the lines still to be read, with the
  variables \<^verbatim>\<open>isFirstLine\<close> and \<^verbatim>\<open>data\<close>.\<close>

fun readCSV_loop :: "string list \<Rightarrow> bool \<Rightarrow> string list list \<Rightarrow> error + string list list" where
  "readCSV_loop [] isFirstLine data = Inr data"
| "readCSV_loop (line # rest) isFirstLine data =
     (if line = [] \<or> trim line = [] then readCSV_loop rest isFirstLine data
      else
        (let columns = map clean_column (split_on CHR '','' line)
         in if isFirstLine
            then (if length columns < 2 then Inl HeaderInvalid
                  else readCSV_loop rest False data)
            else if length columns < 2 then readCSV_loop rest isFirstLine data
            else readCSV_loop rest isFirstLine (data @ [columns])))"

definition readCSV :: "filesystem \<Rightarrow> string \<Rightarrow> error + string list list" where
  "readCSV fs filePath =
     (case fs filePath of
        None \<Rightarrow> Inl (FileNotFound filePath)
      | Some text \<Rightarrow> readCSV_loop (file_lines text) True [])"

subsection \<open>\<^verbatim>\<open>parseCSVData\<close>\<close>

record marker =
  timestamp :: string
  comment :: string

text \<open>\<^verbatim>\<open>row[i]\<close>: \<open>None\<close> stands for \<^verbatim>\<open>undefined\<close>, which an index past the end
  gives. \<^verbatim>\<open>!v\<close> holds of \<^verbatim>\<open>undefined\<close> and of the empty string.\<close>

definition js_index :: "'a list \<Rightarrow> nat \<Rightarrow> 'a option" where
  "js_index xs i = (if i < length xs then Some (xs ! i) else None)"

fun parseCSVData_loop :: "string list list \<Rightarrow> marker list \<Rightarrow> marker list" where
  "parseCSVData_loop [] markers = markers"
| "parseCSVData_loop (row # rest) markers =
     (case js_index row 0 of
        None \<Rightarrow> parseCSVData_loop rest markers
      | Some ts \<Rightarrow>
          if ts = [] then parseCSVData_loop rest markers
          else
            (case js_index row 1 of
               None \<Rightarrow> parseCSVData_loop rest markers
             | Some cm \<Rightarrow>
                 if cm = [] then parseCSVData_loop rest markers
                 else parseCSVData_loop rest
                        (markers @ [\<lparr>timestamp = ts, comment = cm\<rparr>])))"

definition parseCSVData :: "string list list \<Rightarrow> error + marker list" where
  "parseCSVData data =
     (let markers = parseCSVData_loop data []
      in if length markers = 0 then Inl NoValidMarkers else Inr markers)"

subsection \<open>\<^verbatim>\<open>insertMarkers\<close>\<close>

text \<open>The host's sequence is outside the script too. Its state is a value of an arbitrary
  type \<open>'h\<close>, and the two host operations of the loop body,
  \<^verbatim>\<open>sequence.markers.createMarker(time)\<close> followed by the assignment of
  \<^verbatim>\<open>markerObj.name\<close>, are one function of the state, the time and the comment: it
  returns whether both went through (\<open>False\<close>: one of them threw) and the state
  afterwards. The list \<open>calls\<close> is an observer added to the model: it records, in order,
  the arguments of every such host call.\<close>

type_synonym 'h sink = "'h \<Rightarrow> jsnum \<Rightarrow> string \<Rightarrow> bool \<times> 'h"

record import_result =
  inserted :: int
  skipped :: int

record 'h loop_state =
  insertedCount :: int
  skippedCount :: int
  calls :: "(jsnum \<times> string) list"
  host :: 'h

fun insert_loop :: "'h sink \<Rightarrow> marker list \<Rightarrow> 'h loop_state \<Rightarrow> 'h loop_state" where
  "insert_loop place [] st = st"
| "insert_loop place (m # ms) st =
     (case parseTimeString (timestamp m) of
        Inl e \<Rightarrow> insert_loop place ms (st\<lparr>skippedCount := skippedCount st + 1\<rparr>)
      | Inr time \<Rightarrow>
          (case place (host st) time (comment m) of
             (True, h) \<Rightarrow>
               insert_loop place ms
                 (st\<lparr>insertedCount := insertedCount st + 1,
                     calls := calls st @ [(time, comment m)], host := h\<rparr>)
           | (False, h) \<Rightarrow>
               insert_loop place ms
                 (st\<lparr>skippedCount := skippedCount st + 1,
                     calls := calls st @ [(time, comment m)], host := h\<rparr>)))"

text \<open>What a run leaves behind: the value returned or the error thrown, the host calls
  made, and the active sequence (\<open>None\<close>: \<^verbatim>\<open>app.project.activeSequence\<close> is null).\<close>

record 'h run =
  outcome :: "error + import_result"
  placed :: "(jsnum \<times> string) list"
  sequence :: "'h option"

definition insertMarkers :: "'h sink \<Rightarrow> 'h option \<Rightarrow> marker list \<Rightarrow> 'h run" where
  "insertMarkers place seq markers =
     (case seq of
        None \<Rightarrow> \<lparr>outcome = Inl NoActiveSequence, placed = [], sequence = None\<rparr>
      | Some h0 \<Rightarrow>
          (let st = insert_loop place markers
                      \<lparr>insertedCount = 0, skippedCount = 0, calls = [], host = h0\<rparr>
           in \<lparr>outcome = Inr \<lparr>inserted = insertedCount st, skipped = skippedCount st\<rparr>,
               placed = calls st, sequence = Some (host st)\<rparr>))"

subsection \<open>\<^verbatim>\<open>selectCSVFile\<close> and \<^verbatim>\<open>main\<close>\<close>

text \<open>\<^verbatim>\<open>File.openDialog\<close> gives the chosen file or null; \<open>dialog\<close> is the
  \<^verbatim>\<open>fsName\<close> of the chosen file, \<open>None\<close> for null.\<close>

definition selectCSVFile :: "string option \<Rightarrow> string option" where
  "selectCSVFile dialog = (case dialog of None \<Rightarrow> None | Some fsName \<Rightarrow> Some fsName)"

definition failed :: "error \<Rightarrow> 'h option \<Rightarrow> 'h run" where
  "failed e seq = \<lparr>outcome = Inl e, placed = [], sequence = seq\<rparr>"

text \<open>The body of the \<^verbatim>\<open>try\<close> block of \<^verbatim>\<open>main\<close>; the \<^verbatim>\<open>catch\<close> only logs the
  error, which here is the outcome \<open>Inl\<close>.\<close>

definition main :: "string option \<Rightarrow> filesystem \<Rightarrow> 'h sink \<Rightarrow> 'h option \<Rightarrow> 'h run" where
  "main dialog fs place seq =
     (case selectCSVFile dialog of
        None \<Rightarrow> failed NoFileSelected seq
      | Some filePath \<Rightarrow>
          if filePath = [] then failed NoFileSelected seq
          else
            (case readCSV fs filePath of
               Inl e \<Rightarrow> failed e seq
             | Inr data \<Rightarrow>
                 if length data = 0 then failed EmptyData seq
                 else
                   (case parseCSVData data of
                      Inl e \<Rightarrow> failed e seq
                    | Inr markers \<Rightarrow> insertMarkers place seq markers)))"

subsection \<open>Inputs used in the examples\<close>

text \<open>A host whose sequence is the list of the markers placed so far and whose calls
  never throw; a host whose calls always throw; a file system with one file.\<close>

definition accepting_sink :: "(jsnum \<times> string) list sink" where
  "accepting_sink h time name = (True, h @ [(time, name)])"

definition rejecting_sink :: "unit sink" where
  "rejecting_sink h time name = (False, h)"

definition one_file :: "string \<Rightarrow> string \<Rightarrow> filesystem" where
  "one_file path text p = (if p = path then Some text else None)"

definition goal_save_csv :: string where
  "goal_save_csv = ''t,c\<newline>10,Goal\<newline>,Empty\<newline>20,Save\<newline>''"

definition header_only_csv :: string where
  "header_only_csv = ''t,c\<newline>''"



subsection \<open>Notions the properties are stated with\<close>




text \<open>A character that cannot continue a number: not a digit, not the point, not the
  letter of an exponent, not a sign.\<close>

definition nonnumeric :: "char \<Rightarrow> bool" where
  "nonnumeric c \<longleftrightarrow>
     \<not> is_digit c \<and> c \<noteq> CHR ''.'' \<and> c \<noteq> CHR ''e'' \<and> c \<noteq> CHR ''E'' \<and> c \<noteq> CHR ''+'' \<and> c \<noteq> CHR ''-''"


section \<open>Properties\<close>

subsection \<open>The marker loop\<close>

lemma insert_loop_append:
  "insert_loop place (xs @ ys) st = insert_loop place ys (insert_loop place xs st)"
  by (induction xs arbitrary: st) (auto split: sum.splits prod.splits bool.splits)

lemma insert_loop_sum:
  "insertedCount (insert_loop place ms st) + skippedCount (insert_loop place ms st)
     = insertedCount st + skippedCount st + int (length ms)"
  by (induction ms arbitrary: st) (auto split: sum.splits prod.splits bool.splits)

lemma insert_loop_inserted_mono:
  "insertedCount st \<le> insertedCount (insert_loop place ms st)"
proof (induction ms arbitrary: st)
  case Nil
  show ?case by simp
next
  case (Cons m ms)
  show ?case
  proof (cases "parseTimeString (timestamp m)")
    case (Inl e)
    with Cons.IH [of "st\<lparr>skippedCount := skippedCount st + 1\<rparr>"] show ?thesis by simp
  next
    case (Inr t)
    obtain b h where p: "place (host st) t (comment m) = (b, h)"
      by (cases "place (host st) t (comment m)")
    show ?thesis
    proof (cases b)
      case True
      with Inr p
        Cons.IH [of "st\<lparr>insertedCount := insertedCount st + 1,
                        calls := calls st @ [(t, comment m)], host := h\<rparr>"]
      show ?thesis by simp
    next
      case False
      with Inr p
        Cons.IH [of "st\<lparr>skippedCount := skippedCount st + 1,
                        calls := calls st @ [(t, comment m)], host := h\<rparr>"]
      show ?thesis by simp
    qed
  qed
qed

lemma insert_loop_skipped_mono:
  "skippedCount st \<le> skippedCount (insert_loop place ms st)"
proof (induction ms arbitrary: st)
  case Nil
  show ?case by simp
next
  case (Cons m ms)
  show ?case
  proof (cases "parseTimeString (timestamp m)")
    case (Inl e)
    with Cons.IH [of "st\<lparr>skippedCount := skippedCount st + 1\<rparr>"] show ?thesis by simp
  next
    case (Inr t)
    obtain b h where p: "place (host st) t (comment m) = (b, h)"
      by (cases "place (host st) t (comment m)")
    show ?thesis
    proof (cases b)
      case True
      with Inr p
        Cons.IH [of "st\<lparr>insertedCount := insertedCount st + 1,
                        calls := calls st @ [(t, comment m)], host := h\<rparr>"]
      show ?thesis by simp
    next
      case False
      with Inr p
        Cons.IH [of "st\<lparr>skippedCount := skippedCount st + 1,
                        calls := calls st @ [(t, comment m)], host := h\<rparr>"]
      show ?thesis by simp
    qed
  qed
qed

text \<open>
  C6. Whenever the host has an active sequence, \<^verbatim>\<open>insertMarkers\<close> returns a result
  (no record makes it throw), both of its counts are at least 0, and together they
  count every marker record it was given exactly once.
\<close>

theorem insertMarkers_counts_every_record:
  "\<exists>r. outcome (insertMarkers place (Some h0) markers) = Inr r
       \<and> 0 \<le> inserted r \<and> 0 \<le> skipped r
       \<and> inserted r + skipped r = int (length markers)"
proof -
  define init where "init = \<lparr>insertedCount = 0, skippedCount = 0, calls = [], host = h0\<rparr>"
  define fin where "fin = insert_loop place markers init"
  have "insertedCount init \<le> insertedCount fin"
    unfolding fin_def by (rule insert_loop_inserted_mono)
  then have i: "0 \<le> insertedCount fin"
    by (simp add: init_def)
  have "skippedCount init \<le> skippedCount fin"
    unfolding fin_def by (rule insert_loop_skipped_mono)
  then have s: "0 \<le> skippedCount fin"
    by (simp add: init_def)
  have "insertedCount fin + skippedCount fin
          = insertedCount init + skippedCount init + int (length markers)"
    unfolding fin_def by (rule insert_loop_sum)
  then have t: "insertedCount fin + skippedCount fin = int (length markers)"
    by (simp add: init_def)
  have "outcome (insertMarkers place (Some h0) markers)
          = Inr \<lparr>inserted = insertedCount fin, skipped = skippedCount fin\<rparr>"
    by (simp add: insertMarkers_def Let_def fin_def init_def)
  with i s t show ?thesis
    by simp
qed

theorem insertMarkers_counts_every_record_witness:
  "\<exists>r. outcome (insertMarkers rejecting_sink (Some ())
                   [\<lparr>timestamp = ''5'', comment = ''a''\<rparr>, \<lparr>timestamp = ''x'', comment = ''b''\<rparr>])
          = Inr r
       \<and> 0 \<le> inserted r \<and> 0 \<le> skipped r \<and> inserted r + skipped r = 2"
  using insertMarkers_counts_every_record
    [of rejecting_sink "()"
        "[\<lparr>timestamp = ''5'', comment = ''a''\<rparr>, \<lparr>timestamp = ''x'', comment = ''b''\<rparr>]"]
  by simp

subsection \<open>\<^verbatim>\<open>parseTimeString\<close> on strings that begin with a number\<close>

lemmas eval_defs = parseTimeString_def trim_def is_space_def parseFloat_def str_unsigned_def
  after_digits_def
  is_digit_def digits_val_def digit_val_def scale10_def isNaN_def parseInt10_def

text \<open>
  C1. On \<^verbatim>\<open>"01:02:03.5"\<close> and \<^verbatim>\<open>"00:00:10"\<close> the script does not reach the
  HH:MM:SS branch: \<^verbatim>\<open>parseFloat\<close> reads the leading digits \<^verbatim>\<open>01\<close> and \<^verbatim>\<open>00\<close>,
  the result is not NaN, and \<^verbatim>\<open>parseTimeString\<close> returns 1 and 0, not 3723.5 and 10.
\<close>

theorem parseTimeString_hhmmss_examples:
  "parseTimeString ''01:02:03.5'' = Inr (Num 1) \<and> parseTimeString ''00:00:10'' = Inr (Num 0)"
  by (simp add: eval_defs)

text \<open>
  C2. On \<^verbatim>\<open>"1:2"\<close> the script does not throw: \<^verbatim>\<open>parseFloat\<close> reads the leading
  \<^verbatim>\<open>1\<close> and \<^verbatim>\<open>parseTimeString\<close> returns 1. The same happens on \<^verbatim>\<open>"10abc"\<close>, which
  is neither a decimal number nor three parts separated by colons.
\<close>

theorem parseTimeString_two_parts_example:
  "parseTimeString ''1:2'' = Inr (Num 1) \<and> parseTimeString ''10abc'' = Inr (Num 10)"
  by (simp add: eval_defs)

subsection \<open>The example file from end to end\<close>

lemma accepting_call:
  assumes "\<forall>h t c. fst (place h t c)"
  shows "\<exists>h'. place h t c = (True, h')"
proof (cases "place h t c")
  case (Pair b h')
  moreover from assms have "fst (place h t c)" by simp
  ultimately show ?thesis by simp
qed

lemma readCSV_goal_save:
  "readCSV_loop (file_lines goal_save_csv) True []
     = Inr [[''10'', ''Goal''], ['''', ''Empty''], [''20'', ''Save'']]"
  by (simp add: goal_save_csv_def file_lines_def clean_column_def strip_quotes_def is_quote_def
        trim_def is_space_def)

lemma parseCSVData_goal_save:
  "parseCSVData [[''10'', ''Goal''], ['''', ''Empty''], [''20'', ''Save'']]
     = Inr [\<lparr>timestamp = ''10'', comment = ''Goal''\<rparr>, \<lparr>timestamp = ''20'', comment = ''Save''\<rparr>]"
  by (simp add: parseCSVData_def js_index_def)

lemma parseTimeString_10_20:
  "parseTimeString ''10'' = Inr (Num 10)" "parseTimeString ''20'' = Inr (Num 20)"
  by (simp_all add: eval_defs)



subsection \<open>Records that are skipped\<close>

text \<open>
  C7, as the claim states it, fails on a record whose timestamp parses and whose host call
  throws: the record is counted as skipped, and the host was called with it.
\<close>

theorem rejected_record_was_offered_to_sink:
  "outcome (insertMarkers rejecting_sink (Some ()) [\<lparr>timestamp = ''5'', comment = ''x''\<rparr>])
     = Inr \<lparr>inserted = 0, skipped = 1\<rparr>
   \<and> placed (insertMarkers rejecting_sink (Some ()) [\<lparr>timestamp = ''5'', comment = ''x''\<rparr>])
     = [(Num 5, ''x'')]"
  by (simp add: insertMarkers_def rejecting_sink_def eval_defs)

text \<open>
  C7, amended. Let \<open>mid\<close> be the state of the loop when it reaches the record \<open>m\<close>, after
  the records \<open>pre\<close>. If the timestamp of \<open>m\<close> does not parse, the loop goes on with the
  remaining records \<open>post\<close> from \<open>mid\<close> with the skip counter one higher and nothing
  else changed: no host call was made for \<open>m\<close>. If the timestamp parses and the host call
  throws, the loop goes on with \<open>post\<close> as well, the skip counter one higher; that one
  call is on record, and the host is in the state the failed call left. In neither case
  does the loop stop.
\<close>

theorem skipped_record_leaves_loop_running:
  fixes place :: "'h sink" and pre :: "marker list" and st :: "'h loop_state"
  defines "mid \<equiv> insert_loop place pre st"
  shows "(parseTimeString (timestamp m) = Inl e \<longrightarrow>
            insert_loop place (pre @ m # post) st
              = insert_loop place post (mid\<lparr>skippedCount := skippedCount mid + 1\<rparr>))
       \<and> (parseTimeString (timestamp m) = Inr t \<and> place (host mid) t (comment m) = (False, h) \<longrightarrow>
            insert_loop place (pre @ m # post) st
              = insert_loop place post
                  (mid\<lparr>skippedCount := skippedCount mid + 1,
                       calls := calls mid @ [(t, comment m)], host := h\<rparr>))"
  by (simp add: insert_loop_append mid_def)

theorem skipped_record_leaves_loop_running_witness:
  "parseTimeString (timestamp \<lparr>timestamp = ''abc'', comment = ''Comment''\<rparr>)
     = Inl (InvalidTimeFormat ''abc'')
   \<and> insert_loop accepting_sink
       ([\<lparr>timestamp = ''10'', comment = ''Goal''\<rparr>]
          @ \<lparr>timestamp = ''abc'', comment = ''Comment''\<rparr> # [\<lparr>timestamp = ''20'', comment = ''Save''\<rparr>])
       \<lparr>insertedCount = 0, skippedCount = 0, calls = [], host = []\<rparr>
     = \<lparr>insertedCount = 2, skippedCount = 1, calls = [(Num 10, ''Goal''), (Num 20, ''Save'')],
        host = [(Num 10, ''Goal''), (Num 20, ''Save'')]\<rparr>
   \<and> parseTimeString (timestamp \<lparr>timestamp = ''5'', comment = ''x''\<rparr>) = Inr (Num 5)
   \<and> rejecting_sink () (Num 5) ''x'' = (False, ())
   \<and> insert_loop rejecting_sink
       ([] @ \<lparr>timestamp = ''5'', comment = ''x''\<rparr> # [\<lparr>timestamp = ''y'', comment = ''z''\<rparr>])
       \<lparr>insertedCount = 0, skippedCount = 0, calls = [], host = ()\<rparr>
     = \<lparr>insertedCount = 0, skippedCount = 2, calls = [(Num 5, ''x'')], host = ()\<rparr>"
  using
    skipped_record_leaves_loop_running
      [where m = "\<lparr>timestamp = ''abc'', comment = ''Comment''\<rparr>"
         and e = "InvalidTimeFormat ''abc''" and place = accepting_sink
         and pre = "[\<lparr>timestamp = ''10'', comment = ''Goal''\<rparr>]"
         and post = "[\<lparr>timestamp = ''20'', comment = ''Save''\<rparr>]"
         and st = "\<lparr>insertedCount = 0, skippedCount = 0, calls = [], host = []\<rparr>"]
    skipped_record_leaves_loop_running
      [where m = "\<lparr>timestamp = ''5'', comment = ''x''\<rparr>" and t = "Num 5" and h = "()"
         and place = rejecting_sink and pre = "[]"
         and post = "[\<lparr>timestamp = ''y'', comment = ''z''\<rparr>]"
         and st = "\<lparr>insertedCount = 0, skippedCount = 0, calls = [], host = ()\<rparr>"]
  by (simp add: accepting_sink_def rejecting_sink_def eval_defs)

subsection \<open>A file with a header and nothing else\<close>

text \<open>
  C8, as the claim states it, fails on the file \<^verbatim>\<open>"t,c\n"\<close>: \<^verbatim>\<open>readCSV\<close> returns
  no row, and the guard \<^verbatim>\<open>data.length === 0\<close> of \<^verbatim>\<open>main\<close> throws "CSV file is
  empty or contains no valid data." before \<^verbatim>\<open>parseCSVData\<close>, which is where "No valid
  markers found in the CSV file" is thrown, is called.
\<close>

theorem header_only_is_not_NoValidMarkers:
  "outcome (main (Some ''h.csv'') (one_file ''h.csv'' header_only_csv) accepting_sink (Some []))
     = Inl EmptyData
   \<and> outcome (main (Some ''h.csv'') (one_file ''h.csv'' header_only_csv) accepting_sink (Some []))
     \<noteq> Inl NoValidMarkers"
  by (simp add: main_def selectCSVFile_def readCSV_def one_file_def header_only_csv_def
        file_lines_def clean_column_def strip_quotes_def is_quote_def trim_def is_space_def
        failed_def)

text \<open>
  C8, amended. For a file whose only line is a header (not blank, at least two fields),
  \<^verbatim>\<open>main\<close> ends with the error of its own guard, "CSV file is empty or contains no
  valid data."; no host call is made and the sequence is left as it was.
\<close>

theorem main_header_only:
  assumes "path \<noteq> []" "fs path = Some body" "file_lines body = [header]"
    and "trim header \<noteq> []" "2 \<le> length (split_on CHR '','' header)"
  shows "main (Some path) fs place seq = \<lparr>outcome = Inl EmptyData, placed = [], sequence = seq\<rparr>"
proof -
  from assms(4) have "header \<noteq> []"
    by (auto simp: trim_def)
  with assms show ?thesis
    by (simp add: main_def selectCSVFile_def readCSV_def failed_def)
qed

theorem main_header_only_witness:
  "''h.csv'' \<noteq> [] \<and> one_file ''h.csv'' header_only_csv ''h.csv'' = Some header_only_csv
   \<and> file_lines header_only_csv = [''t,c''] \<and> trim ''t,c'' \<noteq> []
   \<and> 2 \<le> length (split_on CHR '','' ''t,c'')
   \<and> main (Some ''h.csv'') (one_file ''h.csv'' header_only_csv) accepting_sink (Some [])
       = \<lparr>outcome = Inl EmptyData, placed = [], sequence = Some []\<rparr>"
  using main_header_only
    [where path = "''h.csv''" and fs = "one_file ''h.csv'' header_only_csv"
       and body = header_only_csv and header = "''t,c''" and place = accepting_sink
       and seq = "Some []"]
  by (simp add: one_file_def header_only_csv_def file_lines_def trim_def is_space_def)

subsection \<open>Running twice\<close>

lemma insert_loop_host_irrelevant:
  assumes ok: "\<forall>h t c. fst (place h t c)"
  shows "insertedCount st = insertedCount st' \<Longrightarrow> skippedCount st = skippedCount st' \<Longrightarrow>
         calls st = calls st' \<Longrightarrow>
         insertedCount (insert_loop place ms st) = insertedCount (insert_loop place ms st')
       \<and> skippedCount (insert_loop place ms st) = skippedCount (insert_loop place ms st')
       \<and> calls (insert_loop place ms st) = calls (insert_loop place ms st')"
proof (induction ms arbitrary: st st')
  case Nil
  then show ?case by simp
next
  case (Cons m ms)
  show ?case
  proof (cases "parseTimeString (timestamp m)")
    case (Inl e)
    with Cons.prems
      Cons.IH [of "st\<lparr>skippedCount := skippedCount st + 1\<rparr>"
                  "st'\<lparr>skippedCount := skippedCount st' + 1\<rparr>"]
    show ?thesis by simp
  next
    case (Inr t)
    obtain h1 where p1: "place (host st) t (comment m) = (True, h1)"
      using accepting_call [OF ok] by blast
    obtain h2 where p2: "place (host st') t (comment m) = (True, h2)"
      using accepting_call [OF ok] by blast
    from Inr p1 p2 Cons.prems
      Cons.IH [of "st\<lparr>insertedCount := insertedCount st + 1,
                       calls := calls st @ [(t, comment m)], host := h1\<rparr>"
                  "st'\<lparr>insertedCount := insertedCount st' + 1,
                       calls := calls st' @ [(t, comment m)], host := h2\<rparr>"]
    show ?thesis by simp
  qed
qed

lemma insertMarkers_host_irrelevant:
  assumes ok: "\<forall>h t c. fst (place h t c)"
  shows "outcome (insertMarkers place (Some h1) ms) = outcome (insertMarkers place (Some h2) ms)
       \<and> placed (insertMarkers place (Some h1) ms) = placed (insertMarkers place (Some h2) ms)"
  using insert_loop_host_irrelevant [OF ok,
      of "\<lparr>insertedCount = 0, skippedCount = 0, calls = [], host = h1\<rparr>"
         "\<lparr>insertedCount = 0, skippedCount = 0, calls = [], host = h2\<rparr>" ms]
  by (simp add: insertMarkers_def Let_def)

lemma insertMarkers_sequence:
  "(sequence (insertMarkers place seq ms) = None) = (seq = None)"
  by (cases seq) (simp_all add: insertMarkers_def Let_def)

text \<open>
  C9. With a host whose calls never throw, a second run of \<^verbatim>\<open>main\<close> on the same
  choice of file and the same file system, started on the sequence as the first run left
  it, ends with the same outcome (the same counts, or the same error) and makes the same
  host calls in the same order. Nothing but the host's sequence passes from one run to
  the next, and with such a host its state decides nothing.
\<close>

theorem main_twice_same_result:
  assumes ok: "\<forall>h t c. fst (place h t c)"
  shows "outcome (main dialog fs place (sequence (main dialog fs place seq)))
           = outcome (main dialog fs place seq)
       \<and> placed (main dialog fs place (sequence (main dialog fs place seq)))
           = placed (main dialog fs place seq)"
proof -
  have ins: "outcome (insertMarkers place (sequence (insertMarkers place seq ms)) ms)
               = outcome (insertMarkers place seq ms)
           \<and> placed (insertMarkers place (sequence (insertMarkers place seq ms)) ms)
               = placed (insertMarkers place seq ms)" for ms
  proof (cases seq)
    case None
    then show ?thesis by (simp add: insertMarkers_def)
  next
    case (Some h0)
    then obtain h' where "sequence (insertMarkers place seq ms) = Some h'"
      using insertMarkers_sequence [of place seq ms] by auto
    with Some insertMarkers_host_irrelevant [OF ok, of h' ms h0] show ?thesis by simp
  qed
  show ?thesis
    using ins
    by (simp add: main_def failed_def split: option.splits sum.splits)
qed

theorem main_twice_same_result_witness:
  "(\<forall>h t c. fst (accepting_sink h t c))
   \<and> sequence (main (Some ''a.csv'') (one_file ''a.csv'' goal_save_csv) accepting_sink (Some []))
       = Some [(Num 10, ''Goal''), (Num 20, ''Save'')]
   \<and> outcome (main (Some ''a.csv'') (one_file ''a.csv'' goal_save_csv) accepting_sink
                (Some [(Num 10, ''Goal''), (Num 20, ''Save'')]))
       = outcome (main (Some ''a.csv'') (one_file ''a.csv'' goal_save_csv) accepting_sink (Some []))
   \<and> placed (main (Some ''a.csv'') (one_file ''a.csv'' goal_save_csv) accepting_sink
                (Some [(Num 10, ''Goal''), (Num 20, ''Save'')]))
       = placed (main (Some ''a.csv'') (one_file ''a.csv'' goal_save_csv) accepting_sink (Some []))"
proof -
  have s: "sequence (main (Some ''a.csv'') (one_file ''a.csv'' goal_save_csv) accepting_sink (Some []))
             = Some [(Num 10, ''Goal''), (Num 20, ''Save'')]"
    by (simp add: main_def selectCSVFile_def readCSV_def one_file_def readCSV_goal_save
          parseCSVData_goal_save insertMarkers_def parseTimeString_10_20 accepting_sink_def)
  have ok: "\<forall>h t c. fst (accepting_sink h t c)"
    by (simp add: accepting_sink_def)
  show ?thesis
    using ok s
      main_twice_same_result [OF ok, of "Some ''a.csv''" "one_file ''a.csv'' goal_save_csv" "Some []"]
    by simp
qed

subsection \<open>What \<^verbatim>\<open>parseFloat\<close> reads, and what may follow it\<close>

lemma digits_suffix:
  assumes "w = [] \<or> nonnumeric (hd w)"
  shows "takeWhile is_digit (u @ w) = takeWhile is_digit u"
    and "dropWhile is_digit (u @ w) = dropWhile is_digit u @ w"
proof -
  from assms have "w = [] \<or> \<not> is_digit (hd w)"
    by (auto simp: nonnumeric_def)
  then show "takeWhile is_digit (u @ w) = takeWhile is_digit u"
    by (induction u) (auto simp: takeWhile_eq_Nil_iff)
  from \<open>w = [] \<or> \<not> is_digit (hd w)\<close>
  show "dropWhile is_digit (u @ w) = dropWhile is_digit u @ w"
    by (induction u) (auto simp: dropWhile_eq_self_iff)
qed

lemma read_sign_suffix:
  "w = [] \<or> nonnumeric (hd w) \<Longrightarrow> read_sign (u @ w) = (fst (read_sign u), snd (read_sign u) @ w)"
  by (cases u; cases w) (auto simp: nonnumeric_def)

lemma exponent_part_suffix:
  assumes "w = [] \<or> nonnumeric (hd w)"
  shows "exponent_part (x @ w) = exponent_part x"
proof (cases x)
  case Nil
  with assms show ?thesis by (cases w) (auto simp: nonnumeric_def)
next
  case (Cons c cs)
  then show ?thesis
    using read_sign_suffix [OF assms, of cs] digits_suffix(1) [OF assms, of "snd (read_sign cs)"]
    by (auto simp: Let_def split: prod.splits)
qed

lemma after_digits_suffix:
  assumes w: "w = [] \<or> nonnumeric (hd w)"
  shows "after_digits ip (r @ w) = after_digits ip r"
proof (cases r)
  case Nil
  with w show ?thesis
    by (cases w) (auto simp: after_digits_def nonnumeric_def)
next
  case (Cons c cs)
  show ?thesis
  proof (cases "c = CHR ''.''")
    case True
    with Cons show ?thesis
      by (simp add: after_digits_def Let_def digits_suffix [OF w] exponent_part_suffix [OF w])
  next
    case False
    with Cons exponent_part_suffix [OF w, of "c # cs"] show ?thesis
      by (simp add: after_digits_def)
  qed
qed

lemma str_unsigned_suffix:
  assumes w: "w = [] \<or> nonnumeric (hd w)"
    and inf: "(take 8 (u @ w) = ''Infinity'') = (take 8 u = ''Infinity'')"
  shows "str_unsigned (u @ w) = str_unsigned u"
  unfolding str_unsigned_def inf digits_suffix [OF w] after_digits_suffix [OF w] ..


lemma infinity_suffix:
  assumes "w = [] \<or> hd w \<notin> set ''Infinity''"
  shows "(take 8 (u @ w) = ''Infinity'') = (take 8 u = ''Infinity'')"
proof (cases "8 \<le> length u")
  case True
  then show ?thesis by simp
next
  case False
  then have short: "take 8 u = u" "length u < 8" by simp_all
  have "take 8 (u @ w) \<noteq> ''Infinity''"
  proof
    assume eq: "take 8 (u @ w) = ''Infinity''"
    then have "length (take 8 (u @ w)) = 8" by simp
    with short have "w \<noteq> []" by auto
    then obtain c cs where w: "w = c # cs" by (cases w) auto
    from short obtain k where k: "8 - length u = Suc k" by (cases "8 - length u") auto
    from eq short w k have "u @ c # take k cs = ''Infinity''" by simp
    then have "c \<in> set ''Infinity''"
      by (metis in_set_conv_decomp)
    with assms w show False by simp
  qed
  moreover from short have "take 8 u \<noteq> ''Infinity''" by auto
  ultimately show ?thesis by simp
qed

lemma space_nonnumeric: "is_space c \<Longrightarrow> nonnumeric c \<and> c \<notin> set ''Infinity''"
  by (auto simp: is_space_def nonnumeric_def is_digit_def)

lemma parse_suffix:
  assumes "w = [] \<or> (nonnumeric (hd w) \<and> hd w \<notin> set ''Infinity'')"
  shows "(case read_sign (t @ w) of (neg, u) \<Rightarrow> if neg then js_neg (str_unsigned u) else str_unsigned u)
       = (case read_sign t of (neg, u) \<Rightarrow> if neg then js_neg (str_unsigned u) else str_unsigned u)"
proof -
  from assms have w: "w = [] \<or> nonnumeric (hd w)" and i: "w = [] \<or> hd w \<notin> set ''Infinity''"
    by auto
  show ?thesis
    by (simp add: read_sign_suffix [OF w] str_unsigned_suffix [OF w infinity_suffix [OF i]]
          split: prod.splits)
qed

lemma trailing_spaces:
  "\<exists>w. t = rev (dropWhile is_space (rev t)) @ w \<and> (\<forall>c\<in>set w. is_space c)"
proof -
  have "rev t = takeWhile is_space (rev t) @ dropWhile is_space (rev t)" by simp
  then have "t = rev (dropWhile is_space (rev t)) @ rev (takeWhile is_space (rev t))"
    by (metis rev_append rev_rev_ident)
  moreover have "\<forall>c\<in>set (rev (takeWhile is_space (rev t))). is_space c"
    by (auto dest: set_takeWhileD)
  ultimately show ?thesis by blast
qed

lemma dropWhile_space_trim: "dropWhile is_space (trim s) = trim s"
proof -
  let ?t = "dropWhile is_space s"
  obtain w where w: "?t = trim s @ w"
    using trailing_spaces [of ?t] by (auto simp: trim_def)
  show ?thesis
  proof (cases "trim s")
    case Nil
    then show ?thesis by simp
  next
    case (Cons c cs)
    with w have t: "?t = c # cs @ w" by simp
    then have "?t \<noteq> []" by simp
    then have "\<not> is_space (hd ?t)" by (rule hd_dropWhile)
    with t have "\<not> is_space c" by simp
    with Cons show ?thesis by simp
  qed
qed

lemma parseFloat_trim: "parseFloat (trim s) = parseFloat s"
proof -
  let ?t = "dropWhile is_space s"
  obtain w where w: "?t = trim s @ w" "\<forall>c\<in>set w. is_space c"
    using trailing_spaces [of ?t] by (auto simp: trim_def)
  from w(2) have "w = [] \<or> (nonnumeric (hd w) \<and> hd w \<notin> set ''Infinity'')"
    using space_nonnumeric [of "hd w"] by (cases w) auto
  from parse_suffix [OF this, of "trim s"] w(1) show ?thesis
    by (simp add: parseFloat_def dropWhile_space_trim)
qed

lemma digit_not_other:
  "is_digit c \<Longrightarrow> \<not> is_space c \<and> c \<noteq> CHR ''.'' \<and> c \<noteq> CHR ''I'' \<and> c \<noteq> CHR ''+'' \<and> c \<noteq> CHR ''-''"
  by (auto simp: is_digit_def is_space_def)













subsection \<open>Cleaning the fields of a line\<close>







subsection \<open>The branch for HH:MM:SS\<close>

lemma split_on_first:
  "split_on d t = p # ps \<Longrightarrow> \<exists>x. t = p @ x"
proof (induction t arbitrary: p ps)
  case Nil
  then show ?case by simp
next
  case (Cons c cs)
  show ?case
  proof (cases "c = d")
    case True
    with Cons.prems show ?thesis by simp
  next
    case False
    show ?thesis
    proof (cases "split_on d cs")
      case Nil
      with False Cons.prems show ?thesis by auto
    next
      case (Cons p' ps')
      from Cons.IH [OF this] obtain x where "cs = p' @ x" by blast
      with False Cons Cons.prems show ?thesis by auto
    qed
  qed
qed

lemma after_digits_number: "ip \<noteq> [] \<Longrightarrow> after_digits ip r \<noteq> NaN"
  by (simp add: after_digits_def Let_def)

lemma parseInt10_parseFloat:
  assumes "parseInt10 p \<noteq> NaN"
  shows "parseFloat (p @ x) \<noteq> NaN"
proof -
  define v where "v = dropWhile is_space p"
  obtain neg u where rs: "read_sign v = (neg, u)" by (cases "read_sign v")
  with assms have z: "takeWhile is_digit u \<noteq> []"
    by (auto simp: parseInt10_def v_def Let_def split: if_splits)
  then obtain d u' where u: "u = d # u'" "is_digit d"
    by (cases u) (auto split: if_splits)
  with rs have "v \<noteq> []" by auto
  then have "hd v \<in> set p" "\<not> is_space (hd v)"
    unfolding v_def using hd_dropWhile [of is_space p] set_dropWhileD [of "hd (dropWhile is_space p)" is_space p]
    by auto
  then have dw: "dropWhile is_space (p @ x) = v @ x"
    unfolding v_def by (rule dropWhile_append1)
  from rs \<open>v \<noteq> []\<close> have rs': "read_sign (v @ x) = (neg, u @ x)"
    by (cases v) (auto split: if_splits)
  from u have "d \<noteq> CHR ''I''" by (simp add: digit_not_other)
  with u have su: "str_unsigned (u @ x) \<noteq> NaN"
    by (simp add: str_unsigned_def after_digits_number)
  then have "js_neg (str_unsigned (u @ x)) \<noteq> NaN"
    by (cases "str_unsigned (u @ x)") auto
  with su dw rs' show ?thesis
    by (simp add: parseFloat_def)
qed

text \<open>
  The branch of \<^verbatim>\<open>parseTimeString\<close> that splits at colons never returns a value: it is
  entered only when \<^verbatim>\<open>parseFloat\<close> finds no number at the start of the trimmed text,
  and then \<^verbatim>\<open>parseInt\<close> finds none at the start of the first part either. So the
  function returns what \<^verbatim>\<open>parseFloat\<close> returns, or throws.
\<close>

lemma hhmmss_branch_unreachable:
  "parseTimeString s =
     (if isNaN (parseFloat s) then Inl (InvalidTimeFormat (trim s)) else Inr (parseFloat s))"
proof (cases "isNaN (parseFloat s)")
  case False
  then show ?thesis by (simp add: parseTimeString_def parseFloat_trim)
next
  case True
  then have nan: "parseFloat (trim s) = NaN" by (simp add: parseFloat_trim isNaN_def)
  have "isNaN (parseInt10 p0)" if "split_on CHR '':'' (trim s) = [p0, p1, p2]" for p0 p1 p2
  proof -
    from split_on_first [OF that] obtain x where "trim s = p0 @ x" by blast
    with nan parseInt10_parseFloat [of p0 x] show ?thesis by (auto simp: isNaN_def)
  qed
  with True show ?thesis
    by (simp add: parseTimeString_def parseFloat_trim Let_def split: list.splits)
qed

end
